theory Spec2Isabelle
  imports Main "HOL-Library.AList"
begin

section \<open>The financial question service of \<open>app.py\<close>\<close>

text \<open>
  \<open>app.py\<close> runs its set-up at module level: it reads the credential, loads the CSV
  file into a relational store, defines four tools, reads and validates
  \<open>config.yaml\<close>, assembles the crew, and only then registers the two routes. Every
  step that can raise or call \<open>exit()\<close> is a branch of a sum type here; what the
  operating system and the libraries answer (the environment variable, the two files,
  whether the store accepts the table, what the crew returns) is an input of the model.
\<close>

subsection \<open>Errors and file reads\<close>

datatype error =
    ValueError string
  | SystemExit
  | KeyError string
  | PipelineError string

text \<open>
  What opening and parsing a file gives: \<open>FileNotFoundError\<close>, any other exception,
  or the parsed content.
\<close>

datatype 'a file_read = FileNotFound | OtherFailure | Content 'a

subsection \<open>Dataset loader: column labels\<close>

text \<open>
  Python's \<open>str.isspace\<close> on the code points below 256 (a \<open>char\<close> is one such code
  point): tab to carriage return, the four separators 28 to 31, the space, NEL and the
  no-break space.
\<close>

definition isspace :: "char \<Rightarrow> bool" where
  "isspace c =
     (let n = (of_char c :: nat)
      in (9 \<le> n \<and> n \<le> 13) \<or> (28 \<le> n \<and> n \<le> 32) \<or> n = 133 \<or> n = 160)"

text \<open>\<open>s.strip()\<close>: whitespace is dropped at both ends, and only there.\<close>

definition strip :: "string \<Rightarrow> string" where
  "strip s = rev (dropWhile isspace (rev (dropWhile isspace s)))"

text \<open>
  \<open>s.replace(old, new)\<close> for a pattern of one character, which pandas takes literally:
  every occurrence is replaced.
\<close>

definition str_replace :: "char \<Rightarrow> string \<Rightarrow> string \<Rightarrow> string" where
  "str_replace old new s = concat (map (\<lambda>c. if c = old then new else [c]) s)"

text \<open>
  Line 70:
  \<^verbatim>\<open>df.columns.str.strip().str.replace(' ', '_').str.replace('(', '')
    .str.replace(')', '').str.replace('/', '_')\<close>
\<close>

definition normalize_column :: "string \<Rightarrow> string" where
  "normalize_column h =
     str_replace (CHR ''/'') ''_''
       (str_replace (CHR '')'') ''''
         (str_replace (CHR ''('') ''''
           (str_replace (CHR '' '') ''_'' (strip h))))"

record dataframe =
  columns :: "string list"
  rows :: "string list list"

subsection \<open>Configuration schema\<close>

text \<open>
  What \<open>yaml.safe_load\<close> returns, restricted to null, booleans, integers, strings,
  sequences and mappings with string keys. A mapping is a Python dict: its keys are
  distinct, and \<open>map_of\<close> reads it.
\<close>

datatype yaml =
    YNull
  | YBool bool
  | YInt int
  | YStr string
  | YList "yaml list"
  | YMap "(string \<times> yaml) list"

record AgentConfig =
  name :: string
  role :: string
  goal :: string
  backstory :: string
  tools :: "string list"
  allow_delegation :: bool
  verbose :: bool

record CrewConfig =
  agents :: "AgentConfig list"

text \<open>
  Field types: \<open>str\<close> takes a string as it is, of any length, and no number or
  boolean; \<open>bool\<close> takes a boolean, the integers 0 and 1, and the usual words in any
  letter case; \<open>List[str]\<close> takes a sequence of strings.
\<close>

fun validate_str :: "yaml \<Rightarrow> string option" where
  "validate_str (YStr s) = Some s"
| "validate_str _ = None"

definition ascii_lower :: "char \<Rightarrow> char" where
  "ascii_lower c =
     (let n = (of_char c :: nat) in if 65 \<le> n \<and> n \<le> 90 then char_of (n + 32) else c)"

definition str_as_bool :: "string \<Rightarrow> bool option" where
  "str_as_bool s =
     (let l = map ascii_lower s
      in if s = ''0'' \<or> l \<in> set [''f'', ''n'', ''no'', ''off'', ''false''] then Some False
         else if s = ''1'' \<or> l \<in> set [''t'', ''y'', ''on'', ''yes'', ''true''] then Some True
         else None)"

fun validate_bool :: "yaml \<Rightarrow> bool option" where
  "validate_bool (YBool b) = Some b"
| "validate_bool (YInt i) = (if i = 0 then Some False else if i = 1 then Some True else None)"
| "validate_bool (YStr s) = str_as_bool s"
| "validate_bool _ = None"

fun validate_str_list :: "yaml \<Rightarrow> string list option" where
  "validate_str_list (YList ys) = those (map validate_str ys)"
| "validate_str_list _ = None"

text \<open>A field without a default must be there; a field with one may be left out.\<close>

definition required :: "(yaml \<Rightarrow> 'a option) \<Rightarrow> (string \<times> yaml) list \<Rightarrow> string \<Rightarrow> 'a option" where
  "required v m k = (case map_of m k of None \<Rightarrow> None | Some y \<Rightarrow> v y)"

definition optional :: "(yaml \<Rightarrow> 'a option) \<Rightarrow> 'a \<Rightarrow> (string \<times> yaml) list \<Rightarrow> string \<Rightarrow> 'a option" where
  "optional v d m k = (case map_of m k of None \<Rightarrow> Some d | Some y \<Rightarrow> v y)"

text \<open>
  \<open>AgentConfig\<close>, lines 37 to 44. Keys the schema does not name are ignored.
\<close>

fun validate_agent :: "yaml \<Rightarrow> AgentConfig option" where
  "validate_agent (YMap m) =
     (case required validate_str m ''name'' of None \<Rightarrow> None | Some n \<Rightarrow>
      case required validate_str m ''role'' of None \<Rightarrow> None | Some r \<Rightarrow>
      case required validate_str m ''goal'' of None \<Rightarrow> None | Some g \<Rightarrow>
      case required validate_str m ''backstory'' of None \<Rightarrow> None | Some b \<Rightarrow>
      case optional validate_str_list [] m ''tools'' of None \<Rightarrow> None | Some t \<Rightarrow>
      case optional validate_bool False m ''allow_delegation'' of None \<Rightarrow> None | Some d \<Rightarrow>
      case optional validate_bool True m ''verbose'' of None \<Rightarrow> None | Some v \<Rightarrow>
        Some \<lparr>name = n, role = r, goal = g, backstory = b, tools = t,
              allow_delegation = d, verbose = v\<rparr>)"
| "validate_agent _ = None"

text \<open>\<open>CrewConfig(**config_data)\<close>: the document must be a mapping with a list \<open>agents\<close>.\<close>

fun validate_crew :: "yaml \<Rightarrow> CrewConfig option" where
  "validate_crew (YMap m) =
     (case map_of m ''agents'' of
        Some (YList ys) \<Rightarrow>
          (case those (map validate_agent ys) of
             None \<Rightarrow> None
           | Some as \<Rightarrow> Some \<lparr>agents = as\<rparr>)
      | _ \<Rightarrow> None)"
| "validate_crew _ = None"

subsection \<open>The environment of one start\<close>

text \<open>
  \<open>env_groq_api_key\<close> is \<open>os.getenv("GROQ_API_KEY")\<close> after \<open>load_dotenv()\<close>;
  \<open>csv_file\<close> is \<open>pd.read_csv("./Financial Statements.csv")\<close>; \<open>db_store\<close> says
  whether \<open>sqlite3.connect\<close>, \<open>to_sql\<close> and \<open>SQLDatabase.from_uri\<close> go through for
  a frame; \<open>config_file\<close> is \<open>config.yaml\<close> opened and parsed.
\<close>

record environment =
  env_groq_api_key :: "string option"
  csv_file :: "dataframe file_read"
  db_store :: "dataframe \<Rightarrow> bool"
  config_file :: "yaml file_read"

text \<open>\<open>load_config\<close>, lines 50 to 61: both handlers log and call \<open>exit()\<close>.\<close>

definition load_config :: "environment \<Rightarrow> error + CrewConfig" where
  "load_config env =
     (case config_file env of
        FileNotFound \<Rightarrow> Inl SystemExit
      | OtherFailure \<Rightarrow> Inl SystemExit
      | Content config_data \<Rightarrow>
          (case validate_crew config_data of
             None \<Rightarrow> Inl SystemExit
           | Some c \<Rightarrow> Inr c))"

text \<open>Database set-up, lines 68 to 79.\<close>

definition database_setup :: "environment \<Rightarrow> error + dataframe" where
  "database_setup env =
     (case csv_file env of
        FileNotFound \<Rightarrow> Inl SystemExit
      | OtherFailure \<Rightarrow> Inl SystemExit
      | Content df \<Rightarrow>
          (let df' = df\<lparr>columns := map normalize_column (columns df)\<rparr>
           in if db_store env df' then Inr df' else Inl SystemExit))"

subsection \<open>Tools, agents, tasks, crew\<close>

datatype tool = list_tables | tables_schema | execute_sql | check_sql

fun tool_name :: "tool \<Rightarrow> string" where
  "tool_name list_tables = ''list_tables''"
| "tool_name tables_schema = ''tables_schema''"
| "tool_name execute_sql = ''execute_sql''"
| "tool_name check_sql = ''check_sql''"

definition tool_mapping :: "(string \<times> tool) list" where
  "tool_mapping =
     [(''list_tables'', list_tables),
      (''tables_schema'', tables_schema),
      (''execute_sql'', execute_sql),
      (''check_sql'', check_sql)]"

record llm =
  llm_model :: string
  llm_api_key :: string

record agent =
  agent_role :: string
  agent_goal :: string
  agent_backstory :: string
  agent_llm :: llm
  agent_tools :: "tool list"
  agent_allow_delegation :: bool
  agent_verbose :: bool

datatype task =
  Task (description: string) (expected_output: string) (task_agent: agent)
       (task_context: "task list option")

datatype process_mode = sequential | hierarchical

record crew =
  crew_agents :: "agent list"
  crew_tasks :: "task list"
  crew_process :: process_mode
  crew_verbose :: bool

text \<open>
  The body of the loop at lines 120 to 130. \<open>textwrap.dedent\<close> is a parameter. The
  comprehension keeps, in order, the tool of every declared name that is a key of
  \<open>tool_mapping\<close>.
\<close>

definition make_agent :: "(string \<Rightarrow> string) \<Rightarrow> llm \<Rightarrow> AgentConfig \<Rightarrow> agent" where
  "make_agent dedent l agent_conf =
     (let agent_tools = List.map_filter (map_of tool_mapping) (tools agent_conf)
      in \<lparr>agent_role = role agent_conf,
          agent_goal = goal agent_conf,
          agent_backstory = dedent (backstory agent_conf),
          agent_llm = l,
          agent_tools = agent_tools,
          agent_allow_delegation = allow_delegation agent_conf,
          agent_verbose = True\<rparr>)"

text \<open>
  \<open>agents[agent_conf.name] = Agent(...)\<close> on an insertion-ordered dict: a new key goes
  to the end, a known key keeps its place and takes the new value.
\<close>

definition create_agents :: "(string \<Rightarrow> string) \<Rightarrow> llm \<Rightarrow> AgentConfig list \<Rightarrow> (string \<times> agent) list" where
  "create_agents dedent l confs =
     foldl (\<lambda>as agent_conf. AList.update (name agent_conf) (make_agent dedent l agent_conf) as)
       [] confs"

text \<open>\<open>d[k]\<close> raises \<open>KeyError\<close> for a key that is not there.\<close>

definition getitem :: "(string \<times> 'a) list \<Rightarrow> string \<Rightarrow> error + 'a" where
  "getitem d k = (case map_of d k of None \<Rightarrow> Inl (KeyError k) | Some v \<Rightarrow> Inr v)"

text \<open>\<open>create_crew\<close> after \<open>load_config\<close> has returned: lines 118 to 157.\<close>

definition assemble_crew :: "(string \<Rightarrow> string) \<Rightarrow> llm \<Rightarrow> CrewConfig \<Rightarrow> error + crew" where
  "assemble_crew dedent l crew_config =
     (let as = create_agents dedent l (agents crew_config) in
      case getitem as ''sql_dev'' of Inl e \<Rightarrow> Inl e | Inr sql_dev \<Rightarrow>
      let extract_data =
            Task ''Extract the data required to answer the question: {query}.''
                 ''A list of data from the database that answers the question.''
                 sql_dev None in
      case getitem as ''data_analyst'' of Inl e \<Rightarrow> Inl e | Inr data_analyst \<Rightarrow>
      let analyze_data =
            Task ''Analyze the data provided and write a brief analysis for the question: {query}.''
                 ''A short, easy-to-understand text analyzing the provided data.''
                 data_analyst (Some [extract_data]) in
      case getitem as ''report_writer'' of Inl e \<Rightarrow> Inl e | Inr report_writer \<Rightarrow>
      let write_report =
            Task (dedent ''Write an executive summary of the report from the analysis. The report must be less than 50 words and presented in markdown.'')
                 ''A markdown report summarizing the analysis.''
                 report_writer (Some [analyze_data]) in
      Inr \<lparr>crew_agents = map snd as,
           crew_tasks = [extract_data, analyze_data, write_report],
           crew_process = sequential,
           crew_verbose = True\<rparr>)"

definition create_crew :: "(string \<Rightarrow> string) \<Rightarrow> llm \<Rightarrow> environment \<Rightarrow> error + crew" where
  "create_crew dedent l env =
     (case load_config env of
        Inl e \<Rightarrow> Inl e
      | Inr crew_config \<Rightarrow> assemble_crew dedent l crew_config)"

subsection \<open>Start-up\<close>

record app =
  app_llm :: llm
  app_db :: dataframe
  app_crew :: crew

text \<open>
  The module-level statements in their order: the credential (lines 31 to 34, \<open>not\<close>
  is true of \<open>None\<close> and of the empty string), the client (line 64), the store (lines
  68 to 79), the crew (line 160).
\<close>

definition credential_not_set :: error where
  "credential_not_set =
     ValueError ''GROQ_API_KEY environment variable not set. Please create a .env file and add it.''"

definition startup :: "(string \<Rightarrow> string) \<Rightarrow> environment \<Rightarrow> error + app" where
  "startup dedent env =
     (case env_groq_api_key env of
        None \<Rightarrow> Inl credential_not_set
      | Some groq_api_key \<Rightarrow>
          if groq_api_key = [] then Inl credential_not_set
          else
            (let l = \<lparr>llm_model = ''groq/llama-3.3-70b-versatile'', llm_api_key = groq_api_key\<rparr> in
             case database_setup env of Inl e \<Rightarrow> Inl e | Inr db \<Rightarrow>
             case create_crew dedent l env of Inl e \<Rightarrow> Inl e | Inr c \<Rightarrow>
               Inr \<lparr>app_llm = l, app_db = db, app_crew = c\<rparr>))"

subsection \<open>Routes\<close>

datatype content = Text string | Template string "(string \<times> string) list"

record response =
  status :: nat
  content :: content

text \<open>A call of \<open>crew.kickoff(inputs=...)\<close>: the crew it is made on, and the inputs.\<close>

datatype call = Kickoff (call_crew: crew) (call_inputs: "(string \<times> string) list")

text \<open>
  \<open>process\<close>, lines 170 to 181. The form is a multi-dict and \<open>get\<close> returns the first
  value of the key or \<open>None\<close>. What \<open>kickoff\<close> returns, or raises, is a parameter; the
  second component lists the calls made of it.
\<close>

definition process ::
  "(crew \<Rightarrow> (string \<times> string) list \<Rightarrow> error + string) \<Rightarrow> crew \<Rightarrow> (string \<times> string) list
     \<Rightarrow> (error + response) \<times> call list" where
  "process kickoff c form =
     (case map_of form ''query'' of
        None \<Rightarrow> (Inr \<lparr>status = 400, content = Text ''Please provide a query.''\<rparr>, [])
      | Some query \<Rightarrow>
          if query = []
          then (Inr \<lparr>status = 400, content = Text ''Please provide a query.''\<rparr>, [])
          else
            (let inputs = [(''query'', query)] in
             case kickoff c inputs of
               Inl e \<Rightarrow> (Inl e, [Kickoff c inputs])
             | Inr result \<Rightarrow>
                 (Inr \<lparr>status = 200,
                       content = Template ''result.html'' [(''query'', query), (''result'', result)]\<rparr>,
                  [Kickoff c inputs])))"

definition index :: "(error + response) \<times> call list" where
  "index = (Inr \<lparr>status = 200, content = Template ''index.html'' []\<rparr>, [])"

datatype request = GET_index | POST_process "(string \<times> string) list"

text \<open>The routes read the module-level \<open>crew\<close>; no request assigns it.\<close>

definition handle ::
  "(crew \<Rightarrow> (string \<times> string) list \<Rightarrow> error + string) \<Rightarrow> app \<Rightarrow> request
     \<Rightarrow> (error + response) \<times> call list" where
  "handle kickoff a req =
     (case req of
        GET_index \<Rightarrow> index
      | POST_process form \<Rightarrow> process kickoff (app_crew a) form)"

definition serve ::
  "(crew \<Rightarrow> (string \<times> string) list \<Rightarrow> error + string) \<Rightarrow> app \<Rightarrow> request list
     \<Rightarrow> ((error + response) \<times> call list) list" where
  "serve kickoff a reqs = map (handle kickoff a) reqs"

text \<open>
  The whole run: a request is answered only when the module has been executed to its
  end.
\<close>

definition run ::
  "(string \<Rightarrow> string) \<Rightarrow> (crew \<Rightarrow> (string \<times> string) list \<Rightarrow> error + string) \<Rightarrow> environment
     \<Rightarrow> request list \<Rightarrow> error + ((error + response) \<times> call list) list" where
  "run dedent kickoff env reqs =
     (case startup dedent env of
        Inl e \<Rightarrow> Inl e
      | Inr a \<Rightarrow> Inr (serve kickoff a reqs))"

section \<open>Sample inputs\<close>

text \<open>
  One environment in which start-up succeeds (a credential, a frame of two columns, a
  store that takes every table, a configuration of the three agents), and the pieces
  that the concrete instances below vary.
\<close>

definition sample_llm :: llm where
  "sample_llm = \<lparr>llm_model = ''groq/llama-3.3-70b-versatile'', llm_api_key = ''gsk''\<rparr>"

definition sample_kickoff :: "crew \<Rightarrow> (string \<times> string) list \<Rightarrow> error + string" where
  "sample_kickoff c inputs = Inr ''report''"

definition sample_frame :: dataframe where
  "sample_frame = \<lparr>columns = ['' Net Income (USD/yr)'', ''Year''], rows = [[''1'', ''2020'']]\<rparr>"

definition sample_table :: dataframe where
  "sample_table = \<lparr>columns = [''Net_Income_USD_yr'', ''Year''], rows = [[''1'', ''2020'']]\<rparr>"

definition agent_entry :: "string \<Rightarrow> (string \<times> yaml) list \<Rightarrow> yaml" where
  "agent_entry n others =
     YMap ([(''name'', YStr n), (''role'', YStr ''role''), (''goal'', YStr ''goal''),
            (''backstory'', YStr ''backstory'')] @ others)"

definition sample_config :: yaml where
  "sample_config =
     YMap [(''agents'', YList
       [agent_entry ''sql_dev''
          [(''tools'', YList [YStr ''list_tables'', YStr ''web_search'', YStr ''execute_sql''])],
        agent_entry ''data_analyst'' [],
        agent_entry ''report_writer'' [(''verbose'', YBool False)]])]"

definition sample_env :: environment where
  "sample_env =
     \<lparr>env_groq_api_key = Some ''gsk'', csv_file = Content sample_frame,
      db_store = (\<lambda>df. True), config_file = Content sample_config\<rparr>"

definition sample_agent :: "string \<Rightarrow> string list \<Rightarrow> bool \<Rightarrow> AgentConfig" where
  "sample_agent n ts v =
     \<lparr>name = n, role = ''role'', goal = ''goal'', backstory = ''backstory'', tools = ts,
      allow_delegation = False, verbose = v\<rparr>"

definition sample_crew_config :: CrewConfig where
  "sample_crew_config =
     \<lparr>agents = [sample_agent ''sql_dev'' [''list_tables'', ''web_search'', ''execute_sql''] True,
                sample_agent ''data_analyst'' [] True,
                sample_agent ''report_writer'' [] False]\<rparr>"

definition sample_crew :: crew where
  "sample_crew =
     (case assemble_crew (\<lambda>s. s) sample_llm sample_crew_config of
        Inr c \<Rightarrow> c
      | Inl e \<Rightarrow> \<lparr>crew_agents = [], crew_tasks = [], crew_process = sequential, crew_verbose = True\<rparr>)"

definition entry_without_goal :: yaml where
  "entry_without_goal =
     YMap [(''name'', YStr ''sql_dev''), (''role'', YStr ''role''), (''backstory'', YStr ''backstory'')]"

definition quiet_entry :: yaml where
  "quiet_entry = agent_entry ''report_writer'' [(''verbose'', YBool False)]"

definition two_agent_config :: yaml where
  "two_agent_config =
     YMap [(''agents'', YList [agent_entry ''sql_dev'' [], agent_entry ''report_writer'' []])]"

definition two_agent_crew_config :: CrewConfig where
  "two_agent_crew_config =
     \<lparr>agents = [sample_agent ''sql_dev'' [] True, sample_agent ''report_writer'' [] True]\<rparr>"

section \<open>Column labels\<close>

lemma set_str_replace: "set (str_replace old new s) \<subseteq> (set s - {old}) \<union> set new"
  by (induction s) (auto simp: str_replace_def)

lemma str_replace_absent: "old \<notin> set s \<Longrightarrow> str_replace old new s = s"
  by (induction s) (auto simp: str_replace_def)

lemma set_strip: "set (strip s) \<subseteq> set s"
proof -
  have "set (strip s) = set (dropWhile isspace (rev (dropWhile isspace s)))"
    by (simp add: strip_def)
  also have "\<dots> \<subseteq> set (rev (dropWhile isspace s))" by (rule set_dropWhileD[THEN subsetI])
  also have "\<dots> \<subseteq> set s" using set_dropWhileD by fastforce
  finally show ?thesis .
qed

lemma dropWhile_none: "\<forall>c\<in>set s. \<not> P c \<Longrightarrow> dropWhile P s = s"
  by (cases s) auto

lemma strip_no_space: "\<forall>c\<in>set s. \<not> isspace c \<Longrightarrow> strip s = s"
  by (simp add: strip_def dropWhile_none)

lemma dropWhile_all: "\<forall>c\<in>set ws. P c \<Longrightarrow> dropWhile P (ws @ s) = dropWhile P s"
  by (induction ws) auto

lemma strip_padding:
  assumes l: "\<forall>c\<in>set l. isspace c" and r: "\<forall>c\<in>set r. isspace c"
  shows "strip (l @ s @ r) = strip s"
proof (cases "\<forall>c\<in>set s. isspace c")
  case True
  then have "\<forall>c\<in>set (l @ s @ r). isspace c" using l r by auto
  then have a: "dropWhile isspace (l @ s @ r) = []"
    unfolding dropWhile_eq_Nil_conv .
  have b: "dropWhile isspace s = []" using True by simp
  show ?thesis by (simp only: strip_def a b)
next
  case False
  then obtain x where "x \<in> set s" "\<not> isspace x" by auto
  then have "dropWhile isspace (s @ r) = dropWhile isspace s @ r"
    by (simp add: dropWhile_append1)
  moreover have "\<forall>c\<in>set (rev r). isspace c" using r by simp
  ultimately show ?thesis
    using l by (simp add: strip_def dropWhile_all)
qed

lemma normalize_chars:
  "set (normalize_column h) \<subseteq> (set h - {CHR '' '', CHR ''('', CHR '')'', CHR ''/''}) \<union> {CHR ''_''}"
proof -
  let ?a = "str_replace (CHR '' '') ''_'' (strip h)"
  let ?b = "str_replace (CHR ''('') '''' ?a"
  let ?c = "str_replace (CHR '')'') '''' ?b"
  have a: "set ?a \<subseteq> (set h - {CHR '' ''}) \<union> {CHR ''_''}"
    using set_str_replace[of "CHR '' ''" "''_''" "strip h"] set_strip[of h] by auto
  have b: "set ?b \<subseteq> (set h - {CHR '' '', CHR ''(''}) \<union> {CHR ''_''}"
    using set_str_replace[of "CHR ''(''" "''''" ?a] a by auto
  have c: "set ?c \<subseteq> (set h - {CHR '' '', CHR ''('', CHR '')''}) \<union> {CHR ''_''}"
    using set_str_replace[of "CHR '')''" "''''" ?b] b by auto
  show ?thesis
    unfolding normalize_column_def
    using set_str_replace[of "CHR ''/''" "''_''" ?c] c by auto
qed

lemma normalize_twice: "normalize_column (normalize_column h) = strip (normalize_column h)"
proof -
  let ?n = "normalize_column h"
  have s: "set (strip ?n) \<subseteq> set ?n" by (rule set_strip)
  have "CHR '' '' \<notin> set (strip ?n)" "CHR ''('' \<notin> set (strip ?n)"
       "CHR '')'' \<notin> set (strip ?n)" "CHR ''/'' \<notin> set (strip ?n)"
    using s normalize_chars[of h] by auto
  then show ?thesis
    by (simp add: normalize_column_def[of ?n] str_replace_absent)
qed

lemma normalize_no_whitespace:
  assumes "\<forall>c\<in>set h. isspace c \<longrightarrow> c = CHR '' ''"
  shows "\<forall>c\<in>set (normalize_column h). \<not> isspace c"
proof
  fix c assume c: "c \<in> set (normalize_column h)"
  then have "c \<in> set h - {CHR '' ''} \<or> c = CHR ''_''"
    using normalize_chars[of h] by auto
  moreover have "\<not> isspace (CHR ''_'')" by (simp add: isspace_def)
  ultimately show "\<not> isspace c" using assms by auto
qed

lemma database_setup_columns:
  "database_setup env = Inr db \<Longrightarrow>
     \<exists>df. csv_file env = Content df \<and> columns db = map normalize_column (columns df)"
  by (auto simp: database_setup_def Let_def split: file_read.splits if_splits)

text \<open>
  C4. For every header, the normalized column label has no space, no opening or closing
  parenthesis and no slash. Whitespace at the two ends is removed first: padding a
  header with whitespace on either side does not change its label. The table that
  \<open>database_setup\<close> stores has exactly the normalized labels of the frame read.
\<close>
theorem normalized_column_has_no_space_paren_slash:
  "CHR '' '' \<notin> set (normalize_column h) \<and>
   CHR ''('' \<notin> set (normalize_column h) \<and>
   CHR '')'' \<notin> set (normalize_column h) \<and>
   CHR ''/'' \<notin> set (normalize_column h) \<and>
   (set l \<union> set r \<subseteq> Collect isspace \<longrightarrow> normalize_column (l @ h @ r) = normalize_column h) \<and>
   (database_setup env = Inr db \<longrightarrow>
      (\<exists>df. csv_file env = Content df \<and> columns db = map normalize_column (columns df)))"
proof -
  have chars: "set (normalize_column h) \<inter> {CHR '' '', CHR ''('', CHR '')'', CHR ''/''} = {}"
    using normalize_chars[of h] by auto
  have pad: "set l \<union> set r \<subseteq> Collect isspace \<Longrightarrow> strip (l @ h @ r) = strip h"
    by (rule strip_padding) auto
  show ?thesis
    using chars pad database_setup_columns[of env db]
    by (auto simp: normalize_column_def[of "l @ h @ r"] normalize_column_def[of h])
qed

text \<open>A header padded with a tab, a space and a newline, and the sample frame.\<close>

theorem normalized_column_witness:
  "normalize_column ([CHR 0x09, CHR '' ''] @ ''Net Income (USD/yr)'' @ [CHR 0x0A]) = ''Net_Income_USD_yr'' \<and>
   CHR ''/'' \<notin> set (normalize_column ''Net Income (USD/yr)'') \<and>
   columns sample_table = map normalize_column ['' Net Income (USD/yr)'', ''Year'']"
proof -
  note c4 = normalized_column_has_no_space_paren_slash
      [of "''Net Income (USD/yr)''" "[CHR 0x09, CHR '' '']" "[CHR 0x0A]" sample_env sample_table]
  have ws: "set [CHR 0x09, CHR '' ''] \<union> set [CHR 0x0A] \<subseteq> Collect isspace"
    by code_simp
  have n: "normalize_column ''Net Income (USD/yr)'' = ''Net_Income_USD_yr''"
    by code_simp
  have d: "database_setup sample_env = Inr sample_table"
    by code_simp
  have e: "csv_file sample_env = Content \<lparr>columns = ['' Net Income (USD/yr)'', ''Year''], rows = [[''1'', ''2020'']]\<rparr>"
    by (simp add: sample_env_def sample_frame_def)
  from c4 ws have "normalize_column ([CHR 0x09, CHR '' ''] @ ''Net Income (USD/yr)'' @ [CHR 0x0A])
      = normalize_column ''Net Income (USD/yr)''" by blast
  from this n have 1: "normalize_column ([CHR 0x09, CHR '' ''] @ ''Net Income (USD/yr)'' @ [CHR 0x0A]) = ''Net_Income_USD_yr''"
    by (rule trans)
  from c4 have 2: "CHR ''/'' \<notin> set (normalize_column ''Net Income (USD/yr)'')" by blast
  from c4 d obtain df where "csv_file sample_env = Content df"
    "columns sample_table = map normalize_column (columns df)" by blast
  with e have 3: "columns sample_table = map normalize_column ['' Net Income (USD/yr)'', ''Year'']"
    by simp
  from 1 2 3 show ?thesis by blast
qed

text \<open>
  C5, as amended. Normalization is a function of the header. Normalizing a second time
  strips the first result and does nothing else; so for every header whose only
  whitespace characters are spaces, normalizing twice gives what normalizing once gives.
\<close>

theorem normalize_twice_is_strip:
  "normalize_column (normalize_column h) = strip (normalize_column h) \<and>
   ((\<forall>c\<in>set h. isspace c \<longrightarrow> c = CHR '' '') \<longrightarrow>
      normalize_column (normalize_column h) = normalize_column h)"
  using normalize_twice[of h] normalize_no_whitespace[of h] strip_no_space[of "normalize_column h"]
  by auto

text \<open>
  The header \<open>(\<close>, tab, \<open>a\<close>: nothing is stripped, since the tab is not at an end; the
  bracket goes, and the result starts with the tab, which a second run strips.
\<close>

theorem normalize_twice_counterexample:
  "normalize_column (normalize_column [CHR ''('', CHR 0x09, CHR ''a'']) \<noteq> normalize_column [CHR ''('', CHR 0x09, CHR ''a'']"
  by code_simp

text \<open>A header with spaces at both ends and inside, brackets and a slash.\<close>

theorem normalize_twice_witness:
  "normalize_column (normalize_column '' Net Income (USD/yr) '') = normalize_column '' Net Income (USD/yr) '' \<and>
   normalize_column '' Net Income (USD/yr) '' = ''Net_Income_USD_yr''"
proof -
  have h: "\<forall>c\<in>set '' Net Income (USD/yr) ''. isspace c \<longrightarrow> c = CHR '' ''"
    by code_simp
  have n: "normalize_column '' Net Income (USD/yr) '' = ''Net_Income_USD_yr''"
    by code_simp
  from normalize_twice_is_strip[of "'' Net Income (USD/yr) ''"] h
  have "normalize_column (normalize_column '' Net Income (USD/yr) '') = normalize_column '' Net Income (USD/yr) ''"
    by blast
  with n show ?thesis by blast
qed

section \<open>Assembling the crew\<close>

lemma update_absent: "k \<notin> fst ` set al \<Longrightarrow> AList.update k v al = al @ [(k, v)]"
  by (induction al) auto

lemma update_subset: "set (AList.update k v al) \<subseteq> insert (k, v) (set al)"
  by (induction al) auto

lemma create_agents_snoc:
  "create_agents d l (confs @ [c]) = AList.update (name c) (make_agent d l c) (create_agents d l confs)"
  by (simp add: create_agents_def)

lemma create_agents_keys: "fst ` set (create_agents d l confs) = name ` set confs"
proof (induction confs rule: rev_induct)
  case Nil
  then show ?case by (simp add: create_agents_def)
next
  case (snoc c confs)
  then show ?case by (simp add: create_agents_snoc dom_update)
qed

lemma create_agents_values: "snd ` set (create_agents d l confs) \<subseteq> make_agent d l ` set confs"
proof (induction confs rule: rev_induct)
  case Nil
  then show ?case by (simp add: create_agents_def)
next
  case (snoc c confs)
  have "set (AList.update (name c) (make_agent d l c) (create_agents d l confs))
          \<subseteq> insert (name c, make_agent d l c) (set (create_agents d l confs))"
    by (rule update_subset)
  then have "snd ` set (create_agents d l (confs @ [c]))
          \<subseteq> insert (make_agent d l c) (snd ` set (create_agents d l confs))"
    unfolding create_agents_snoc by force
  moreover have "make_agent d l ` set (confs @ [c])
          = insert (make_agent d l c) (make_agent d l ` set confs)"
    by simp
  ultimately show ?case using snoc by blast
qed

lemma create_agents_distinct:
  "distinct (map name confs) \<Longrightarrow>
     create_agents d l confs = map (\<lambda>c. (name c, make_agent d l c)) confs"
proof (induction confs rule: rev_induct)
  case Nil
  then show ?case by (simp add: create_agents_def)
next
  case (snoc c confs)
  from snoc.prems have "name c \<notin> name ` set confs" and dist: "distinct (map name confs)"
    by simp_all
  then have "name c \<notin> fst ` set (create_agents d l confs)"
    by (simp add: create_agents_keys)
  then have "create_agents d l (confs @ [c]) = create_agents d l confs @ [(name c, make_agent d l c)]"
    unfolding create_agents_snoc by (rule update_absent)
  with snoc.IH[OF dist] show ?case by simp
qed

lemma getitem_present: "k \<in> fst ` set al \<Longrightarrow> \<exists>v. getitem al k = Inr v"
  by (cases "map_of al k") (auto simp: getitem_def map_of_eq_None_iff)

lemma getitem_absent: "k \<notin> fst ` set al \<Longrightarrow> getitem al k = Inl (KeyError k)"
  by (simp add: getitem_def map_of_eq_None_iff[THEN iffD2])

lemma tool_mapping_Some: "map_of tool_mapping n = Some t \<longleftrightarrow> tool_name t = n"
  by (cases t) (auto simp: tool_mapping_def)

lemma tool_mapping_keys: "fst ` set tool_mapping = {''list_tables'', ''tables_schema'', ''execute_sql'', ''check_sql''}"
  by (auto simp: tool_mapping_def)

lemma resolved_tool_names:
  "map tool_name (List.map_filter (map_of tool_mapping) ns) = filter (\<lambda>n. n \<in> fst ` set tool_mapping) ns"
proof (induction ns)
  case Nil
  then show ?case by simp
next
  case (Cons n ns)
  show ?case
  proof (cases "map_of tool_mapping n")
    case None
    then have "n \<notin> fst ` set tool_mapping" by (simp add: map_of_eq_None_iff)
    with None Cons show ?thesis by simp
  next
    case (Some t)
    then have "tool_name t = n" by (simp add: tool_mapping_Some)
    moreover from Some have "n \<in> fst ` set tool_mapping"
      by (metis map_of_eq_None_iff option.distinct(1))
    ultimately show ?thesis using Some Cons by simp
  qed
qed

lemma make_agent_flags:
  "agent_allow_delegation (make_agent d l conf) = allow_delegation conf \<and>
   agent_verbose (make_agent d l conf) = True"
  by (simp add: make_agent_def)

lemma assemble_crew_ok:
  assumes "{''sql_dev'', ''data_analyst'', ''report_writer''} \<subseteq> name ` set (agents cfg)"
  shows "\<exists>c. assemble_crew d l cfg = Inr c \<and> crew_agents c = map snd (create_agents d l (agents cfg))"
proof -
  let ?as = "create_agents d l (agents cfg)"
  from assms have "''sql_dev'' \<in> fst ` set ?as" "''data_analyst'' \<in> fst ` set ?as"
    "''report_writer'' \<in> fst ` set ?as"
    by (simp_all add: create_agents_keys)
  then obtain a1 a2 a3 where "getitem ?as ''sql_dev'' = Inr a1"
    "getitem ?as ''data_analyst'' = Inr a2" "getitem ?as ''report_writer'' = Inr a3"
    using getitem_present by metis
  then show ?thesis by (simp add: assemble_crew_def Let_def)
qed

lemma assemble_crew_missing:
  assumes "\<not> {''sql_dev'', ''data_analyst'', ''report_writer''} \<subseteq> name ` set (agents cfg)"
  shows "\<exists>k. k \<in> {''sql_dev'', ''data_analyst'', ''report_writer''} \<and> k \<notin> name ` set (agents cfg) \<and>
           (\<forall>d l. assemble_crew d l cfg = Inl (KeyError k))"
proof -
  let ?N = "name ` set (agents cfg)"
  have keys: "\<And>d l. fst ` set (create_agents d l (agents cfg)) = ?N"
    by (rule create_agents_keys)
  consider (a) "''sql_dev'' \<notin> ?N"
    | (b) "''sql_dev'' \<in> ?N" "''data_analyst'' \<notin> ?N"
    | (c) "''sql_dev'' \<in> ?N" "''data_analyst'' \<in> ?N" "''report_writer'' \<notin> ?N"
    using assms by blast
  then show ?thesis
  proof cases
    case a
    have "assemble_crew d l cfg = Inl (KeyError ''sql_dev'')" for d l
    proof -
      have "getitem (create_agents d l (agents cfg)) ''sql_dev'' = Inl (KeyError ''sql_dev'')"
        using a keys[of d l] by (simp add: getitem_absent)
      then show ?thesis by (simp add: assemble_crew_def Let_def)
    qed
    with a show ?thesis by blast
  next
    case b
    have "assemble_crew d l cfg = Inl (KeyError ''data_analyst'')" for d l
    proof -
      let ?as = "create_agents d l (agents cfg)"
      obtain a1 where "getitem ?as ''sql_dev'' = Inr a1"
        using b keys[of d l] getitem_present by metis
      moreover have "getitem ?as ''data_analyst'' = Inl (KeyError ''data_analyst'')"
        using b keys[of d l] by (simp add: getitem_absent)
      ultimately show ?thesis by (simp add: assemble_crew_def Let_def)
    qed
    with b show ?thesis by blast
  next
    case c
    have "assemble_crew d l cfg = Inl (KeyError ''report_writer'')" for d l
    proof -
      let ?as = "create_agents d l (agents cfg)"
      obtain a1 a2 where "getitem ?as ''sql_dev'' = Inr a1" "getitem ?as ''data_analyst'' = Inr a2"
        using c keys[of d l] getitem_present by metis
      moreover have "getitem ?as ''report_writer'' = Inl (KeyError ''report_writer'')"
        using c keys[of d l] by (simp add: getitem_absent)
      ultimately show ?thesis by (simp add: assemble_crew_def Let_def)
    qed
    with c show ?thesis by blast
  qed
qed

lemma those_None: "y \<in> set ys \<Longrightarrow> f y = None \<Longrightarrow> those (map f ys) = None"
  by (induction ys) (auto split: option.splits)

lemma database_setup_error: "database_setup env = Inl e \<Longrightarrow> e = SystemExit"
  by (auto simp: database_setup_def Let_def split: file_read.splits if_splits)

lemma load_config_error: "load_config env = Inl e \<Longrightarrow> e = SystemExit"
  by (auto simp: load_config_def split: file_read.splits option.splits)

lemma startup_stops_with_database:
  assumes "database_setup env = Inl e"
  shows "startup d env \<in> {Inl credential_not_set, Inl SystemExit}"
proof -
  from assms have "database_setup env = Inl SystemExit"
    using database_setup_error by blast
  then show ?thesis
    by (simp add: startup_def Let_def split: option.splits)
qed

lemma startup_stops_with_config:
  assumes "load_config env = Inl e"
  shows "startup d env \<in> {Inl credential_not_set, Inl SystemExit}"
proof -
  from assms have c: "\<And>l. create_crew d l env = Inl SystemExit"
    using load_config_error by (fastforce simp: create_crew_def)
  show ?thesis
  proof (cases "database_setup env")
    case (Inl e')
    then show ?thesis by (rule startup_stops_with_database)
  next
    case (Inr db)
    with c show ?thesis
      by (simp add: startup_def Let_def split: option.splits)
  qed
qed

lemma run_stops: "startup d env = Inl e \<Longrightarrow> run d k env reqs = Inl e"
  by (simp add: run_def)

lemma serve_calls: "call_crew ` set (concat (map snd (serve k a reqs))) \<subseteq> {app_crew a}"
  by (induction reqs)
     (auto simp: serve_def handle_def index_def process_def Let_def
           split: request.splits option.splits if_splits sum.splits)

lemma process_calls_kickoff:
  assumes "map_of form ''query'' = Some q" and "q \<noteq> []"
  shows "snd (process k c form) = [Kickoff c [(''query'', q)]]"
  using assms by (simp add: process_def Let_def split: sum.splits)

lemma serve_nth_calls:
  assumes "i < length reqs" and "reqs ! i = POST_process form"
    and "map_of form ''query'' = Some q" and "q \<noteq> []"
  shows "snd (serve k a reqs ! i) = [Kickoff (app_crew a) [(''query'', q)]]"
  using assms by (simp add: serve_def handle_def process_calls_kickoff)

lemma assemble_crew_tasks:
  assumes "assemble_crew d l cfg = Inr c"
  shows "\<exists>extract analyze summarize.
           crew_tasks c = [extract, analyze, summarize] \<and>
           description extract = ''Extract the data required to answer the question: {query}.'' \<and>
           description analyze = ''Analyze the data provided and write a brief analysis for the question: {query}.'' \<and>
           description summarize = d ''Write an executive summary of the report from the analysis. The report must be less than 50 words and presented in markdown.'' \<and>
           task_context extract = None \<and>
           task_context analyze = Some [extract] \<and>
           task_context summarize = Some [analyze] \<and>
           crew_process c = sequential"
  using assms by (auto simp: assemble_crew_def Let_def split: sum.splits)

lemma startup_Inr:
  assumes "startup d env = Inr a"
  shows "\<exists>cfg. load_config env = Inr cfg \<and> assemble_crew d (app_llm a) cfg = Inr (app_crew a)"
  using assms
  by (auto simp: startup_def create_crew_def Let_def split: option.splits if_splits sum.splits)

section \<open>Validating the configuration\<close>

lemma required_str:
  "required validate_str m k = Some s \<longleftrightarrow> map_of m k = Some (YStr s)"
proof (cases "map_of m k")
  case None
  then show ?thesis by (simp add: required_def)
next
  case (Some y)
  then show ?thesis by (cases y) (auto simp: required_def)
qed

lemma validate_agent_Some:
  assumes "validate_agent y = Some a"
  shows "\<exists>m. y = YMap m \<and>
           map_of m ''name'' = Some (YStr (name a)) \<and>
           map_of m ''role'' = Some (YStr (role a)) \<and>
           map_of m ''goal'' = Some (YStr (goal a)) \<and>
           map_of m ''backstory'' = Some (YStr (backstory a))"
proof (cases y)
  case (YMap m)
  with assms show ?thesis
    by (auto simp: required_str split: option.splits)
qed (use assms in simp_all)

lemma validate_agent_missing:
  assumes "k \<in> {''name'', ''role'', ''goal'', ''backstory''}" and "map_of m k = None"
  shows "validate_agent (YMap m) = None"
proof (cases "validate_agent (YMap m)")
  case None
  then show ?thesis .
next
  case (Some a)
  from validate_agent_Some[OF Some] assms show ?thesis by auto
qed

lemma validate_crew_bad_entry:
  assumes "map_of doc ''agents'' = Some (YList ys)" and "y \<in> set ys" and "validate_agent y = None"
  shows "validate_crew (YMap doc) = None"
  using assms those_None[of y ys validate_agent] by simp

section \<open>The routes\<close>

text \<open>
  C1. A POST to \<open>/process\<close> whose form has no \<open>query\<close> field is answered with status
  400 and the plain message \<open>Please provide a query.\<close>, and \<open>crew.kickoff\<close> is not
  called: the list of calls is empty, whatever \<open>kickoff\<close> would do.
\<close>

theorem process_without_query_is_rejected:
  assumes "map_of form ''query'' = None"
  shows "process kickoff c form =
           (Inr \<lparr>status = 400, content = Text ''Please provide a query.''\<rparr>, [])"
  using assms by (simp add: process_def)

text \<open>A form with another field only.\<close>

theorem process_without_query_witness:
  "map_of [(''question'', ''net income in 2020?'')] ''query'' = None \<and>
   process sample_kickoff sample_crew [(''question'', ''net income in 2020?'')] =
     (Inr \<lparr>status = 400, content = Text ''Please provide a query.''\<rparr>, [])"
proof -
  have h: "map_of [(''question'', ''net income in 2020?'')] ''query'' = None"
    by simp
  from h process_without_query_is_rejected[OF h, of sample_kickoff sample_crew]
  show ?thesis by (rule conjI)
qed

text \<open>
  C10. A POST to \<open>/process\<close> whose \<open>query\<close> field is the empty string gets the same 400
  answer, with no call of \<open>crew.kickoff\<close>; the answer is the one given to the same form
  with the field taken out.
\<close>

theorem process_with_empty_query_is_rejected:
  assumes "map_of form ''query'' = Some []"
  shows "process kickoff c form =
           (Inr \<lparr>status = 400, content = Text ''Please provide a query.''\<rparr>, []) \<and>
         process kickoff c form = process kickoff c (filter (\<lambda>(k, v). k \<noteq> ''query'') form)"
proof -
  have "map_of (filter (\<lambda>(k, v). k \<noteq> ''query'') form) ''query'' = None"
    by (induction form) auto
  then show ?thesis using assms by (simp add: process_def)
qed

text \<open>A form whose \<open>query\<close> is empty.\<close>

theorem process_with_empty_query_witness:
  "map_of [(''query'', [])] ''query'' = Some [] \<and>
   process sample_kickoff sample_crew [(''query'', [])] =
     (Inr \<lparr>status = 400, content = Text ''Please provide a query.''\<rparr>, []) \<and>
   process sample_kickoff sample_crew [(''query'', [])] =
     process sample_kickoff sample_crew (filter (\<lambda>(k, v). k \<noteq> ''query'') [(''query'', [])])"
proof -
  have h: "map_of [(''query'', [])] ''query'' = Some []"
    by simp
  from h process_with_empty_query_is_rejected[OF h, of sample_kickoff sample_crew]
  show ?thesis by (rule conjI)
qed

section \<open>The configuration and the crew\<close>

text \<open>
  C2, as amended. An agent entry is accepted only if \<open>name\<close>, \<open>role\<close>, \<open>goal\<close> and
  \<open>backstory\<close> are present as text, which may be empty. An entry that lacks one of
  them fails validation, and a configuration file that holds such an entry makes
  \<open>load_config\<close> exit, so that the run ends before any request is served.
\<close>

theorem validate_agent_requires_text_fields:
  "(validate_agent y = Some a \<longrightarrow>
      (\<exists>m. y = YMap m \<and>
           map_of m ''name'' = Some (YStr (name a)) \<and>
           map_of m ''role'' = Some (YStr (role a)) \<and>
           map_of m ''goal'' = Some (YStr (goal a)) \<and>
           map_of m ''backstory'' = Some (YStr (backstory a)))) \<and>
   (k \<in> {''name'', ''role'', ''goal'', ''backstory''} \<and> map_of e k = None \<longrightarrow>
      validate_agent (YMap e) = None \<and>
      (config_file env = Content (YMap doc) \<and> map_of doc ''agents'' = Some (YList ys) \<and>
       YMap e \<in> set ys \<longrightarrow>
         load_config env = Inl SystemExit \<and>
         run dedent kickoff env reqs \<in> {Inl credential_not_set, Inl SystemExit}))"
proof (intro conjI impI)
  assume "validate_agent y = Some a"
  then show "\<exists>m. y = YMap m \<and>
           map_of m ''name'' = Some (YStr (name a)) \<and>
           map_of m ''role'' = Some (YStr (role a)) \<and>
           map_of m ''goal'' = Some (YStr (goal a)) \<and>
           map_of m ''backstory'' = Some (YStr (backstory a))"
    by (rule validate_agent_Some)
next
  assume k: "k \<in> {''name'', ''role'', ''goal'', ''backstory''} \<and> map_of e k = None"
  then show none: "validate_agent (YMap e) = None"
    using validate_agent_missing by blast
  assume c: "config_file env = Content (YMap doc) \<and> map_of doc ''agents'' = Some (YList ys) \<and>
       YMap e \<in> set ys"
  with none have "validate_crew (YMap doc) = None"
    using validate_crew_bad_entry by blast
  with c show l: "load_config env = Inl SystemExit"
    by (simp add: load_config_def)
  then have "startup dedent env \<in> {Inl credential_not_set, Inl SystemExit}"
    by (rule startup_stops_with_config)
  then show "run dedent kickoff env reqs \<in> {Inl credential_not_set, Inl SystemExit}"
    using run_stops by fastforce
qed

text \<open>An entry whose \<open>name\<close> is the empty string passes validation.\<close>

theorem validate_agent_accepts_empty_name:
  "validate_agent (agent_entry [] []) = Some (sample_agent [] [] True) \<and>
   name (sample_agent [] [] True) = []"
  by code_simp

text \<open>
  A complete entry, and an entry without \<open>goal\<close> in the configuration of an otherwise
  good environment.
\<close>

theorem validate_agent_requires_text_fields_witness:
  "validate_agent (agent_entry ''sql_dev'' []) = Some (sample_agent ''sql_dev'' [] True) \<and>
   (\<exists>m. agent_entry ''sql_dev'' [] = YMap m \<and> map_of m ''name'' = Some (YStr ''sql_dev'')) \<and>
   validate_agent entry_without_goal = None \<and>
   load_config (sample_env\<lparr>config_file := Content (YMap [(''agents'', YList [entry_without_goal])])\<rparr>)
     = Inl SystemExit \<and>
   run (\<lambda>s. s) sample_kickoff
       (sample_env\<lparr>config_file := Content (YMap [(''agents'', YList [entry_without_goal])])\<rparr>)
       [GET_index] = Inl SystemExit"
proof -
  let ?e = "[(''name'', YStr ''sql_dev''), (''role'', YStr ''role''), (''backstory'', YStr ''backstory'')]"
  let ?doc = "[(''agents'', YList [entry_without_goal])]"
  let ?env = "sample_env\<lparr>config_file := Content (YMap ?doc)\<rparr>"
  note c2 = validate_agent_requires_text_fields
    [of "agent_entry ''sql_dev'' []" "sample_agent ''sql_dev'' [] True" "''goal''" ?e ?env ?doc
        "[entry_without_goal]" "\<lambda>s. s" sample_kickoff "[GET_index]"]
  have v: "validate_agent (agent_entry ''sql_dev'' []) = Some (sample_agent ''sql_dev'' [] True)"
    by code_simp
  have n: "name (sample_agent ''sql_dev'' [] True) = ''sql_dev''"
    by (simp add: sample_agent_def)
  have k: "''goal'' \<in> {''name'', ''role'', ''goal'', ''backstory''} \<and> map_of ?e ''goal'' = None"
    by simp
  have e: "YMap ?e = entry_without_goal"
    by (simp add: entry_without_goal_def)
  have c: "config_file ?env = Content (YMap ?doc) \<and> map_of ?doc ''agents'' = Some (YList [entry_without_goal])
           \<and> YMap ?e \<in> set [entry_without_goal]"
    by (simp add: e)
  have key: "run (\<lambda>s. s) sample_kickoff ?env [GET_index] \<noteq> Inl credential_not_set"
    by code_simp
  from c2 v n have 1: "\<exists>m. agent_entry ''sql_dev'' [] = YMap m \<and> map_of m ''name'' = Some (YStr ''sql_dev'')"
    by metis
  from c2 k e have 2: "validate_agent entry_without_goal = None"
    by metis
  from c2 k c have 3: "load_config ?env = Inl SystemExit"
    and "run (\<lambda>s. s) sample_kickoff ?env [GET_index] \<in> {Inl credential_not_set, Inl SystemExit}"
    by blast+
  with key have 4: "run (\<lambda>s. s) sample_kickoff ?env [GET_index] = Inl SystemExit"
    by blast
  from v 1 2 3 4 show ?thesis by blast
qed

text \<open>
  C3. The assembler is to give each agent its descriptor's flags. For a validated
  descriptor with \<open>verbose: false\<close> the agent is built with \<open>verbose=True\<close>: line 129
  passes the constant, not \<open>agent_conf.verbose\<close>. (\<open>make_agent_flags\<close> above: the
  delegation flag is passed on.)
\<close>

theorem verbose_flag_is_not_passed_on:
  "map_option verbose (validate_agent quiet_entry) = Some False \<and>
   map_option (\<lambda>conf. agent_verbose (make_agent (\<lambda>s. s) sample_llm conf)) (validate_agent quiet_entry)
     = Some True"
  by code_simp

text \<open>
  C6. A tool name that is not a key of \<open>tool_mapping\<close> is dropped and raises nothing.
  In a configuration that names \<open>sql_dev\<close>, \<open>data_analyst\<close> and \<open>report_writer\<close>, the
  three agents the tasks are wired to by convention, assembly returns a crew whatever
  tool names the entries declare. Each agent of the crew is built from an entry of the
  configuration (from each entry, in order, when the names are distinct), and the tools
  of the agent built from an entry are, by name and in order, exactly the declared names
  that are keys of \<open>tool_mapping\<close>.
\<close>

theorem unknown_tools_are_dropped:
  assumes "{''sql_dev'', ''data_analyst'', ''report_writer''} \<subseteq> name ` set (agents cfg)"
  shows "\<exists>c. assemble_crew dedent l cfg = Inr c \<and>
           set (crew_agents c) \<subseteq> make_agent dedent l ` set (agents cfg) \<and>
           (distinct (map name (agents cfg)) \<longrightarrow>
              crew_agents c = map (make_agent dedent l) (agents cfg)) \<and>
           (\<forall>conf. map tool_name (agent_tools (make_agent dedent l conf)) =
                     filter (\<lambda>n. n \<in> fst ` set tool_mapping) (tools conf))"
proof -
  from assemble_crew_ok[OF assms] obtain c where
    c: "assemble_crew dedent l cfg = Inr c"
       "crew_agents c = map snd (create_agents dedent l (agents cfg))"
    by blast
  have sub: "set (crew_agents c) \<subseteq> make_agent dedent l ` set (agents cfg)"
    using create_agents_values[of dedent l "agents cfg"] c(2) by simp
  have dist: "crew_agents c = map (make_agent dedent l) (agents cfg)"
    if "distinct (map name (agents cfg))"
    using create_agents_distinct[OF that, of dedent l] c(2) by (simp add: comp_def)
  have tl: "map tool_name (agent_tools (make_agent dedent l conf)) =
              filter (\<lambda>n. n \<in> fst ` set tool_mapping) (tools conf)" for conf
    by (simp add: make_agent_def resolved_tool_names)
  from c(1) sub dist tl show ?thesis by blast
qed

text \<open>
  The three agents of the sample configuration; \<open>sql_dev\<close> declares two known tools
  and \<open>web_search\<close>.
\<close>

theorem unknown_tools_are_dropped_witness:
  "{''sql_dev'', ''data_analyst'', ''report_writer''} \<subseteq> name ` set (agents sample_crew_config) \<and>
   distinct (map name (agents sample_crew_config)) \<and>
   (\<exists>c. assemble_crew (\<lambda>s. s) sample_llm sample_crew_config = Inr c \<and>
        crew_agents c = map (make_agent (\<lambda>s. s) sample_llm) (agents sample_crew_config)) \<and>
   map tool_name (agent_tools (make_agent (\<lambda>s. s) sample_llm
       (sample_agent ''sql_dev'' [''list_tables'', ''web_search'', ''execute_sql''] True)))
     = [''list_tables'', ''execute_sql'']"
proof -
  have h: "{''sql_dev'', ''data_analyst'', ''report_writer''} \<subseteq> name ` set (agents sample_crew_config)"
    by code_simp
  have d: "distinct (map name (agents sample_crew_config))"
    by code_simp
  have f: "filter (\<lambda>n. n \<in> fst ` set tool_mapping)
             (tools (sample_agent ''sql_dev'' [''list_tables'', ''web_search'', ''execute_sql''] True))
           = [''list_tables'', ''execute_sql'']"
    by code_simp
  note c6 = unknown_tools_are_dropped[OF h, of "\<lambda>s. s" sample_llm]
  from c6 d have 1: "\<exists>c. assemble_crew (\<lambda>s. s) sample_llm sample_crew_config = Inr c \<and>
        crew_agents c = map (make_agent (\<lambda>s. s) sample_llm) (agents sample_crew_config)"
    by blast
  from c6 have "map tool_name (agent_tools (make_agent (\<lambda>s. s) sample_llm
       (sample_agent ''sql_dev'' [''list_tables'', ''web_search'', ''execute_sql''] True)))
     = filter (\<lambda>n. n \<in> fst ` set tool_mapping)
             (tools (sample_agent ''sql_dev'' [''list_tables'', ''web_search'', ''execute_sql''] True))"
    by blast
  from this f have 2: "map tool_name (agent_tools (make_agent (\<lambda>s. s) sample_llm
       (sample_agent ''sql_dev'' [''list_tables'', ''web_search'', ''execute_sql''] True)))
     = [''list_tables'', ''execute_sql'']"
    by (rule trans)
  from h d 1 2 show ?thesis by blast
qed

text \<open>
  C7. For every validated configuration that lacks one of \<open>sql_dev\<close>, \<open>data_analyst\<close>,
  \<open>report_writer\<close>, \<open>create_crew\<close> raises \<open>KeyError\<close> for a missing name while it builds
  the tasks. The run then ends in an error for every list of requests: in that
  \<open>KeyError\<close> when the credential and the store were fine, and no request is answered.
\<close>

theorem missing_agent_name_raises_KeyError:
  assumes cfg: "load_config env = Inr cfg"
    and missing: "\<not> {''sql_dev'', ''data_analyst'', ''report_writer''} \<subseteq> name ` set (agents cfg)"
  shows "\<exists>k. k \<in> {''sql_dev'', ''data_analyst'', ''report_writer''} \<and>
             k \<notin> name ` set (agents cfg) \<and>
             create_crew dedent l env = Inl (KeyError k) \<and>
             run dedent kickoff env reqs \<in> {Inl credential_not_set, Inl SystemExit, Inl (KeyError k)} \<and>
             (\<forall>key db. env_groq_api_key env = Some key \<and> key \<noteq> [] \<and> database_setup env = Inr db \<longrightarrow>
                 run dedent kickoff env reqs = Inl (KeyError k))"
proof -
  from assemble_crew_missing[OF missing] obtain k where
    k: "k \<in> {''sql_dev'', ''data_analyst'', ''report_writer''}" "k \<notin> name ` set (agents cfg)"
    and a: "\<And>d l. assemble_crew d l cfg = Inl (KeyError k)"
    by blast
  have cc: "create_crew dedent l' env = Inl (KeyError k)" for l'
    using cfg a by (simp add: create_crew_def)
  have r1: "run dedent kickoff env reqs = Inl (KeyError k)"
    if "env_groq_api_key env = Some key \<and> key \<noteq> [] \<and> database_setup env = Inr db" for key db
    using that cc by (simp add: run_def startup_def Let_def)
  have r2: "run dedent kickoff env reqs \<in> {Inl credential_not_set, Inl SystemExit, Inl (KeyError k)}"
  proof (cases "database_setup env")
    case (Inl e)
    then have "startup dedent env \<in> {Inl credential_not_set, Inl SystemExit}"
      by (rule startup_stops_with_database)
    then show ?thesis using run_stops by fastforce
  next
    case (Inr db)
    then show ?thesis using cc
      by (simp add: run_def startup_def Let_def split: option.splits)
  qed
  from k cc r1 r2 show ?thesis by blast
qed

text \<open>A configuration with \<open>sql_dev\<close> and \<open>report_writer\<close> only.\<close>

theorem missing_agent_name_witness:
  "load_config (sample_env\<lparr>config_file := Content two_agent_config\<rparr>) = Inr two_agent_crew_config \<and>
   ''data_analyst'' \<notin> name ` set (agents two_agent_crew_config) \<and>
   create_crew (\<lambda>s. s) sample_llm (sample_env\<lparr>config_file := Content two_agent_config\<rparr>)
     = Inl (KeyError ''data_analyst'') \<and>
   run (\<lambda>s. s) sample_kickoff (sample_env\<lparr>config_file := Content two_agent_config\<rparr>)
       [POST_process [(''query'', ''net income in 2020?'')]] = Inl (KeyError ''data_analyst'')"
proof -
  let ?env = "sample_env\<lparr>config_file := Content two_agent_config\<rparr>"
  have cfg: "load_config ?env = Inr two_agent_crew_config"
    by code_simp
  have names: "name ` set (agents two_agent_crew_config) = {''sql_dev'', ''report_writer''}"
    by (simp add: two_agent_crew_config_def sample_agent_def)
  have missing: "\<not> {''sql_dev'', ''data_analyst'', ''report_writer''}
                   \<subseteq> name ` set (agents two_agent_crew_config)"
    unfolding names by simp
  have key: "env_groq_api_key ?env = Some ''gsk'' \<and> ''gsk'' \<noteq> [] \<and> database_setup ?env = Inr sample_table"
    by code_simp
  from missing_agent_name_raises_KeyError
         [OF cfg missing, of "\<lambda>s. s" sample_llm sample_kickoff
            "[POST_process [(''query'', ''net income in 2020?'')]]"]
  obtain k where k: "k \<in> {''sql_dev'', ''data_analyst'', ''report_writer''}"
      "k \<notin> name ` set (agents two_agent_crew_config)"
      "create_crew (\<lambda>s. s) sample_llm ?env = Inl (KeyError k)"
      "\<forall>key db. env_groq_api_key ?env = Some key \<and> key \<noteq> [] \<and> database_setup ?env = Inr db \<longrightarrow>
         run (\<lambda>s. s) sample_kickoff ?env [POST_process [(''query'', ''net income in 2020?'')]]
           = Inl (KeyError k)"
    by blast
  from k(1,2) have kd: "k = ''data_analyst''"
    unfolding names by blast
  from k(4) key have "run (\<lambda>s. s) sample_kickoff ?env [POST_process [(''query'', ''net income in 2020?'')]]
           = Inl (KeyError k)"
    by blast
  with cfg k(2,3) kd show ?thesis by simp
qed

text \<open>
  C8. When start-up succeeds, the crew has exactly three tasks, in the order extract,
  analyze, summarize; extract has no context, the context of analyze is extract alone
  and that of summarize is analyze alone; the process is sequential. While any list of
  requests is served, every POST to \<open>/process\<close> with a non-empty \<open>query\<close> makes exactly
  one call of \<open>kickoff\<close>, on the crew built at start-up and with that query as its
  input; no call is made on any other crew.
\<close>

theorem pipeline_is_three_sequential_tasks_built_once:
  assumes "startup dedent env = Inr a"
  shows "\<exists>extract analyze summarize.
           crew_tasks (app_crew a) = [extract, analyze, summarize] \<and>
           description extract = ''Extract the data required to answer the question: {query}.'' \<and>
           description analyze = ''Analyze the data provided and write a brief analysis for the question: {query}.'' \<and>
           description summarize = dedent ''Write an executive summary of the report from the analysis. The report must be less than 50 words and presented in markdown.'' \<and>
           task_context extract = None \<and>
           task_context analyze = Some [extract] \<and>
           task_context summarize = Some [analyze] \<and>
           crew_process (app_crew a) = sequential \<and>
           run dedent kickoff env reqs = Inr (serve kickoff a reqs) \<and>
           (\<forall>i form q. i < length reqs \<and> reqs ! i = POST_process form \<and>
                      map_of form ''query'' = Some q \<and> q \<noteq> [] \<longrightarrow>
              snd (serve kickoff a reqs ! i) = [Kickoff (app_crew a) [(''query'', q)]]) \<and>
           call_crew ` set (concat (map snd (serve kickoff a reqs))) \<subseteq> {app_crew a}"
proof -
  from startup_Inr[OF assms] obtain cfg where
    "assemble_crew dedent (app_llm a) cfg = Inr (app_crew a)" by blast
  from assemble_crew_tasks[OF this] obtain t1 t2 t3 where
    t: "crew_tasks (app_crew a) = [t1, t2, t3]"
       "description t1 = ''Extract the data required to answer the question: {query}.''"
       "description t2 = ''Analyze the data provided and write a brief analysis for the question: {query}.''"
       "description t3 = dedent ''Write an executive summary of the report from the analysis. The report must be less than 50 words and presented in markdown.''"
       "task_context t1 = None"
       "task_context t2 = Some [t1]"
       "task_context t3 = Some [t2]"
       "crew_process (app_crew a) = sequential"
    by blast
  have r: "run dedent kickoff env reqs = Inr (serve kickoff a reqs)"
    using assms by (simp add: run_def)
  have u: "\<forall>i form q. i < length reqs \<and> reqs ! i = POST_process form \<and>
                      map_of form ''query'' = Some q \<and> q \<noteq> [] \<longrightarrow>
              snd (serve kickoff a reqs ! i) = [Kickoff (app_crew a) [(''query'', q)]]"
    using serve_nth_calls by blast
  show ?thesis
    apply (rule exI[of _ t1], rule exI[of _ t2], rule exI[of _ t3])
    apply (intro conjI)
    apply (rule t r u serve_calls)+
    done
qed

text \<open>The sample environment, serving two questions and the form page.\<close>

theorem pipeline_witness:
  "\<exists>a. startup (\<lambda>s. s) sample_env = Inr a \<and>
       map description (crew_tasks (app_crew a)) =
         [''Extract the data required to answer the question: {query}.'',
          ''Analyze the data provided and write a brief analysis for the question: {query}.'',
          ''Write an executive summary of the report from the analysis. The report must be less than 50 words and presented in markdown.''] \<and>
       crew_process (app_crew a) = sequential \<and>
       snd (serve sample_kickoff a
           [POST_process [(''query'', ''net income in 2020?'')], GET_index,
            POST_process [(''query'', ''revenue in 2021?'')]] ! 2)
         = [Kickoff (app_crew a) [(''query'', ''revenue in 2021?'')]] \<and>
       call_crew ` set (concat (map snd (serve sample_kickoff a
           [POST_process [(''query'', ''net income in 2020?'')], GET_index,
            POST_process [(''query'', ''revenue in 2021?'')]]))) \<subseteq> {app_crew a}"
proof -
  let ?reqs = "[POST_process [(''query'', ''net income in 2020?'')], GET_index,
                POST_process [(''query'', ''revenue in 2021?'')]]"
  have "\<not> isl (startup (\<lambda>s. s) sample_env)"
    by code_simp
  then obtain a where h: "startup (\<lambda>s. s) sample_env = Inr a"
    by (cases "startup (\<lambda>s. s) sample_env") auto
  from pipeline_is_three_sequential_tasks_built_once
         [OF h, of sample_kickoff
            "[POST_process [(''query'', ''net income in 2020?'')], GET_index,
              POST_process [(''query'', ''revenue in 2021?'')]]"]
  obtain t1 t2 t3 where
    t: "crew_tasks (app_crew a) = [t1, t2, t3]"
       "description t1 = ''Extract the data required to answer the question: {query}.''"
       "description t2 = ''Analyze the data provided and write a brief analysis for the question: {query}.''"
       "description t3 = ''Write an executive summary of the report from the analysis. The report must be less than 50 words and presented in markdown.''"
       "crew_process (app_crew a) = sequential"
       "\<forall>i form q. i < length ?reqs \<and> ?reqs ! i = POST_process form \<and>
                   map_of form ''query'' = Some q \<and> q \<noteq> [] \<longrightarrow>
           snd (serve sample_kickoff a ?reqs ! i) = [Kickoff (app_crew a) [(''query'', q)]]"
       "call_crew ` set (concat (map snd (serve sample_kickoff a ?reqs))) \<subseteq> {app_crew a}"
    by (elim exE conjE) (rule that; assumption)
  have hyp: "2 < length ?reqs \<and> ?reqs ! 2 = POST_process [(''query'', ''revenue in 2021?'')] \<and>
             map_of [(''query'', ''revenue in 2021?'')] ''query'' = Some ''revenue in 2021?'' \<and>
             ''revenue in 2021?'' \<noteq> []"
    by simp
  have k: "snd (serve sample_kickoff a ?reqs ! 2)
             = [Kickoff (app_crew a) [(''query'', ''revenue in 2021?'')]]"
    by (rule t(6)[rule_format, OF hyp])
  from t(1-4) have m: "map description (crew_tasks (app_crew a)) =
         [''Extract the data required to answer the question: {query}.'',
          ''Analyze the data provided and write a brief analysis for the question: {query}.'',
          ''Write an executive summary of the report from the analysis. The report must be less than 50 words and presented in markdown.'']"
    by simp
  show ?thesis
    by (rule exI[of _ a]) (intro conjI h m t(5) k t(7))
qed

text \<open>
  C9. The run ends in an error, with no request answered, when the credential is not
  set; when the CSV file is absent, cannot be read, or the store does not take the
  table; when the configuration file is absent, cannot be read, or fails validation.
\<close>

theorem startup_is_fatal:
  "(env_groq_api_key env = None \<longrightarrow> run dedent kickoff env reqs = Inl credential_not_set) \<and>
   (csv_file env = FileNotFound \<or> csv_file env = OtherFailure \<or>
    (\<exists>df. csv_file env = Content df \<and>
          db_store env (df\<lparr>columns := map normalize_column (columns df)\<rparr>) = False) \<longrightarrow>
      database_setup env = Inl SystemExit \<and>
      run dedent kickoff env reqs \<in> {Inl credential_not_set, Inl SystemExit}) \<and>
   (config_file env = FileNotFound \<or> config_file env = OtherFailure \<or>
    (\<exists>y. config_file env = Content y \<and> validate_crew y = None) \<longrightarrow>
      load_config env = Inl SystemExit \<and>
      run dedent kickoff env reqs \<in> {Inl credential_not_set, Inl SystemExit})"
proof (intro conjI impI)
  assume "env_groq_api_key env = None"
  then show "run dedent kickoff env reqs = Inl credential_not_set"
    by (simp add: run_def startup_def)
next
  assume "csv_file env = FileNotFound \<or> csv_file env = OtherFailure \<or>
    (\<exists>df. csv_file env = Content df \<and>
          db_store env (df\<lparr>columns := map normalize_column (columns df)\<rparr>) = False)"
  then show d: "database_setup env = Inl SystemExit"
    by (auto simp: database_setup_def Let_def)
  then have "startup dedent env \<in> {Inl credential_not_set, Inl SystemExit}"
    by (rule startup_stops_with_database)
  then show "run dedent kickoff env reqs \<in> {Inl credential_not_set, Inl SystemExit}"
    using run_stops by fastforce
next
  assume "config_file env = FileNotFound \<or> config_file env = OtherFailure \<or>
    (\<exists>y. config_file env = Content y \<and> validate_crew y = None)"
  then show l: "load_config env = Inl SystemExit"
    by (auto simp: load_config_def)
  then have "startup dedent env \<in> {Inl credential_not_set, Inl SystemExit}"
    by (rule startup_stops_with_config)
  then show "run dedent kickoff env reqs \<in> {Inl credential_not_set, Inl SystemExit}"
    using run_stops by fastforce
qed

text \<open>The sample environment with one of its four parts spoiled at a time.\<close>

theorem startup_is_fatal_witness:
  "run (\<lambda>s. s) sample_kickoff (sample_env\<lparr>env_groq_api_key := None\<rparr>) [GET_index]
     = Inl credential_not_set \<and>
   run (\<lambda>s. s) sample_kickoff (sample_env\<lparr>csv_file := FileNotFound\<rparr>) [GET_index]
     = Inl SystemExit \<and>
   run (\<lambda>s. s) sample_kickoff (sample_env\<lparr>db_store := (\<lambda>df. False)\<rparr>) [GET_index]
     = Inl SystemExit \<and>
   run (\<lambda>s. s) sample_kickoff (sample_env\<lparr>config_file := FileNotFound\<rparr>) [GET_index]
     = Inl SystemExit \<and>
   run (\<lambda>s. s) sample_kickoff
       (sample_env\<lparr>config_file := Content (YMap [(''agents'', YList [entry_without_goal])])\<rparr>)
       [GET_index]
     = Inl SystemExit"
proof -
  let ?e1 = "sample_env\<lparr>env_groq_api_key := None\<rparr>"
  let ?e2 = "sample_env\<lparr>csv_file := FileNotFound\<rparr>"
  let ?e3 = "sample_env\<lparr>db_store := (\<lambda>df. False)\<rparr>"
  let ?e4 = "sample_env\<lparr>config_file := FileNotFound\<rparr>"
  let ?e5 = "sample_env\<lparr>config_file := Content (YMap [(''agents'', YList [entry_without_goal])])\<rparr>"
  have key: "run (\<lambda>s. s) sample_kickoff ?e2 [GET_index] \<noteq> Inl credential_not_set"
            "run (\<lambda>s. s) sample_kickoff ?e3 [GET_index] \<noteq> Inl credential_not_set"
            "run (\<lambda>s. s) sample_kickoff ?e4 [GET_index] \<noteq> Inl credential_not_set"
            "run (\<lambda>s. s) sample_kickoff ?e5 [GET_index] \<noteq> Inl credential_not_set"
    by code_simp+
  have h1: "env_groq_api_key ?e1 = None" by simp
  have h2: "csv_file ?e2 = FileNotFound" by simp
  have h3: "csv_file ?e3 = Content sample_frame \<and>
            db_store ?e3 (sample_frame\<lparr>columns := map normalize_column (columns sample_frame)\<rparr>) = False"
    by (simp add: sample_env_def)
  have h4: "config_file ?e4 = FileNotFound" by simp
  have h5: "config_file ?e5 = Content (YMap [(''agents'', YList [entry_without_goal])]) \<and>
            validate_crew (YMap [(''agents'', YList [entry_without_goal])]) = None"
    by code_simp
  from startup_is_fatal[of ?e1 "\<lambda>s. s" sample_kickoff "[GET_index]"] h1
  have 1: "run (\<lambda>s. s) sample_kickoff ?e1 [GET_index] = Inl credential_not_set"
    by blast
  from startup_is_fatal[of ?e2 "\<lambda>s. s" sample_kickoff "[GET_index]"] h2 key(1)
  have 2: "run (\<lambda>s. s) sample_kickoff ?e2 [GET_index] = Inl SystemExit"
    by blast
  from startup_is_fatal[of ?e3 "\<lambda>s. s" sample_kickoff "[GET_index]"] h3 key(2)
  have 3: "run (\<lambda>s. s) sample_kickoff ?e3 [GET_index] = Inl SystemExit"
    by blast
  from startup_is_fatal[of ?e4 "\<lambda>s. s" sample_kickoff "[GET_index]"] h4 key(3)
  have 4: "run (\<lambda>s. s) sample_kickoff ?e4 [GET_index] = Inl SystemExit"
    by blast
  from startup_is_fatal[of ?e5 "\<lambda>s. s" sample_kickoff "[GET_index]"] h5 key(4)
  have 5: "run (\<lambda>s. s) sample_kickoff ?e5 [GET_index] = Inl SystemExit"
    by blast
  from 1 2 3 4 5 show ?thesis by blast
qed

end
